theory Spec2Isabelle
  imports Main "HOL-Library.Sublist"
begin

section \<open>Data model of the dashboard\<close>

text \<open>
  The insight records are the dictionaries built by \<^verbatim>\<open>get_hardcoded_insights\<close> and read
  by the script-side component \<^verbatim>\<open>smartFactsDashboard\<close>. The fields \<^verbatim>\<open>cta\<close>,
  \<^verbatim>\<open>templateKeys\<close> and \<^verbatim>\<open>requiredContext\<close> may be absent, which is \<open>None\<close> here.
  Text is a list of 8-bit characters: an ASCII character is itself, any other character
  is the bytes of its UTF-8 encoding. The field \<^verbatim>\<open>id\<close> is called \<open>insight_id\<close>
  because \<open>id\<close> is the identity function of HOL.
\<close>

record cta_rec =
  cta_text :: string
  cta_url :: string

record insight =
  insight_id :: string
  content :: string
  status :: string
  priority :: int
  isDynamic :: bool
  hasCta :: bool
  cta :: "cta_rec option"
  requiredContext :: "string list option"
  requiresPrimaryUser :: bool
  requiresProfileComplete :: bool
  templateKeys :: "string list option"

record dashboard =
  searchQuery :: string
  statusFilter :: string
  typeFilter :: string
  viewMode :: string
  insights :: "insight list"

section \<open>String operations of the script\<close>

text \<open>
  The script-side component is the text inside the template of
  \<^verbatim>\<open>generate_dashboard_html\<close>, read with the escapes of the Python literal resolved: a
  doubled brace is one brace and a doubled backslash one backslash, so the newline and
  the carriage return are written there as escapes of the script.

  \<^verbatim>\<open>toLowerCase\<close> is a built-in of the engine that runs the script. Its case tables are
  those of Unicode and no part of this repository, so the functions that call it take it
  as the parameter \<open>toLowerCase\<close>, a function from text to text of which nothing is
  assumed.
\<close>

text \<open>
  \<^verbatim>\<open>s.includes(q)\<close>: does \<open>q\<close> occur in \<open>s\<close> as a contiguous run, tried at every position
  (\<open>includes\<close> is a keyword of Isabelle, hence the suffix). The encoding of a character
  never starts inside the encoding of another one, so a run of bytes that is the query
  is a run of characters that is the query.
\<close>

fun startsWith :: "string \<Rightarrow> string \<Rightarrow> bool" where
  "startsWith s [] = True"
| "startsWith [] (q # qs) = False"
| "startsWith (c # s) (q # qs) = (c = q \<and> startsWith s qs)"

fun includes_str :: "string \<Rightarrow> string \<Rightarrow> bool" where
  "includes_str [] q = (q = [])"
| "includes_str (c # s) q = (startsWith (c # s) q \<or> includes_str s q)"

section \<open>The derived view \<^verbatim>\<open>filteredInsights\<close>\<close>

text \<open>A string is falsy in the script exactly when it is empty, so \<^verbatim>\<open>!this.searchQuery\<close> is \<open>searchQuery d = []\<close>.\<close>

definition matchesSearch :: "(string \<Rightarrow> string) \<Rightarrow> dashboard \<Rightarrow> insight \<Rightarrow> bool" where
  "matchesSearch toLowerCase d i =
     (searchQuery d = []
      \<or> includes_str (toLowerCase (insight_id i)) (toLowerCase (searchQuery d))
      \<or> includes_str (toLowerCase (content i)) (toLowerCase (searchQuery d)))"

definition matchesStatus :: "dashboard \<Rightarrow> insight \<Rightarrow> bool" where
  "matchesStatus d i = (statusFilter d = [] \<or> status i = statusFilter d)"

definition matchesType :: "dashboard \<Rightarrow> insight \<Rightarrow> bool" where
  "matchesType d i =
     (typeFilter d = []
      \<or> (typeFilter d = ''static'' \<and> \<not> isDynamic i)
      \<or> (typeFilter d = ''dynamic'' \<and> isDynamic i))"

definition filteredInsights :: "(string \<Rightarrow> string) \<Rightarrow> dashboard \<Rightarrow> insight list" where
  "filteredInsights toLowerCase d =
     filter (\<lambda>i. matchesSearch toLowerCase d i \<and> matchesStatus d i \<and> matchesType d i)
       (insights d)"

section \<open>The derived record \<^verbatim>\<open>stats\<close>\<close>

text \<open>The counter \<^verbatim>\<open>total\<close> is called \<open>total_stat\<close>: \<open>total\<close> is a constant of HOL.\<close>

record stats_rec =
  total_stat :: nat
  live :: nat
  review :: nat
  dynamic :: nat
  withCta :: nat
  retired :: nat

definition stats :: "dashboard \<Rightarrow> stats_rec" where
  "stats d =
     \<lparr> total_stat = length (insights d),
       live = length (filter (\<lambda>i. status i = ''live'') (insights d)),
       review = length (filter (\<lambda>i. status i = ''review'') (insights d)),
       dynamic = length (filter (\<lambda>i. isDynamic i) (insights d)),
       withCta = length (filter (\<lambda>i. hasCta i) (insights d)),
       retired = length (filter (\<lambda>i. status i = ''retired'') (insights d)) \<rparr>"

section \<open>The operation \<^verbatim>\<open>exportToCSV\<close>\<close>

text \<open>
  A row of \<^verbatim>\<open>csvData\<close> is an object literal: its keys in the order they are written, each
  with a string or (for \<^verbatim>\<open>Priority\<close>) a number. The characters the script names by escape:
\<close>

definition LF :: char where "LF = CHR 0x0A"
definition CR :: char where "CR = CHR 0x0D"
definition DQ :: char where "DQ = CHR 0x22"

datatype js_value = JStr string | JNum int

datatype js_error = TypeError

type_synonym js_object = "(string \<times> js_value) list"

text \<open>\<^verbatim>\<open>s.replace(/c/g, r)\<close> for a one-character pattern: every occurrence of \<open>c\<close> becomes \<open>r\<close>.\<close>

fun replace_all :: "char \<Rightarrow> string \<Rightarrow> string \<Rightarrow> string" where
  "replace_all c r [] = []"
| "replace_all c r (x # xs) =
     (if x = c then r @ replace_all c r xs else x # replace_all c r xs)"

text \<open>\<^verbatim>\<open>xs.join(sep)\<close> on an array of strings.\<close>

fun array_join :: "string \<Rightarrow> string list \<Rightarrow> string" where
  "array_join sep [] = []"
| "array_join sep [x] = x"
| "array_join sep (x # y # ys) = x @ sep @ array_join sep (y # ys)"

text \<open>
  The text of a number, as \<^verbatim>\<open>join\<close> converts it: the decimal digits of an integer, with
  a minus sign in front of a negative one (the priorities are integers small enough for
  the script to print them in full).
\<close>

fun nat_to_string :: "nat \<Rightarrow> string" where
  "nat_to_string n =
     (if n < 10 then [char_of (48 + n)]
      else nat_to_string (n div 10) @ [char_of (48 + n mod 10)])"

declare nat_to_string.simps [simp del]

fun js_to_string :: "js_value \<Rightarrow> string" where
  "js_to_string (JStr s) = s"
| "js_to_string (JNum n) =
     (if n < 0 then CHR ''-'' # nat_to_string (nat (- n)) else nat_to_string (nat n))"

text \<open>The callback of \<^verbatim>\<open>this.filteredInsights.map\<close>: one insight to one row object.\<close>

definition csvRow :: "insight \<Rightarrow> js_object" where
  "csvRow i =
     [(''ID'', JStr (insight_id i)),
      (''Status'', JStr (status i)),
      (''Priority'', JNum (priority i)),
      (''Type'', JStr (if isDynamic i then ''Dynamic'' else ''Static'')),
      (''Content'', JStr (replace_all CR [] (replace_all LF '' '' (content i)))),
      (''Dynamic Variables'',
         JStr (case templateKeys i of Some ks \<Rightarrow> array_join ''; '' ks | None \<Rightarrow> [])),
      (''CTA Text'', JStr (case cta i of Some c \<Rightarrow> cta_text c | None \<Rightarrow> [])),
      (''CTA URL'', JStr (case cta i of Some c \<Rightarrow> cta_url c | None \<Rightarrow> [])),
      (''Required Context'',
         JStr (case requiredContext i of Some ks \<Rightarrow> array_join ''; '' ks | None \<Rightarrow> [])),
      (''Requires Primary User'', JStr (if requiresPrimaryUser i then ''Yes'' else ''No'')),
      (''Requires Profile Complete'',
         JStr (if requiresProfileComplete i then ''Yes'' else ''No'')),
      (''Has CTA'', JStr (if hasCta i then ''Yes'' else ''No''))]"

text \<open>
  \<^verbatim>\<open>Object.keys(csvData[0])\<close>: the keys of the first row in the order of insertion; on an
  empty \<^verbatim>\<open>csvData\<close> the argument is \<^verbatim>\<open>undefined\<close> and \<^verbatim>\<open>Object.keys\<close> throws a TypeError.
\<close>

definition object_keys_first :: "js_object list \<Rightarrow> js_error + string list" where
  "object_keys_first csvData =
     (case csvData of [] \<Rightarrow> Inl TypeError | row # _ \<Rightarrow> Inr (map fst row))"

text \<open>
  The callback of \<^verbatim>\<open>headers.map\<close>: a string that includes a comma, a double quote or a
  newline is returned between double quotes with its double quotes doubled, any other
  value as it is.
\<close>

fun escapeValue :: "js_value \<Rightarrow> js_value" where
  "escapeValue (JStr v) =
     (if includes_str v '','' \<or> includes_str v [DQ] \<or> includes_str v [LF]
      then JStr ([DQ] @ replace_all DQ [DQ, DQ] v @ [DQ])
      else JStr v)"
| "escapeValue (JNum n) = JNum n"

text \<open>\<^verbatim>\<open>row[header]\<close> is \<open>map_of row header\<close>; \<^verbatim>\<open>join\<close> prints a missing value as the empty string.\<close>

definition csvFields :: "string list \<Rightarrow> js_object \<Rightarrow> string list" where
  "csvFields headers row =
     map (\<lambda>header. case map_of row header of
                      None \<Rightarrow> []
                    | Some v \<Rightarrow> js_to_string (escapeValue v)) headers"

text \<open>
  What the export hands to the browser: the text of the blob, its type and the name of
  the download. \<open>now_iso\<close> is the value of \<^verbatim>\<open>new Date().toISOString()\<close>, whose part before
  the first \<open>T\<close> is the date.
\<close>

record download =
  blob_text :: string
  blob_type :: string
  download_name :: string

definition exportToCSV ::
  "(string \<Rightarrow> string) \<Rightarrow> string \<Rightarrow> dashboard \<Rightarrow> js_error + download" where
  "exportToCSV toLowerCase now_iso d =
     (let csvData = map csvRow (filteredInsights toLowerCase d) in
      case object_keys_first csvData of
        Inl e \<Rightarrow> Inl e
      | Inr headers \<Rightarrow>
          let csvContent =
                array_join [LF]
                  (array_join '','' headers
                   # map (\<lambda>row. array_join '','' (csvFields headers row)) csvData)
          in Inr \<lparr> blob_text = csvContent,
                   blob_type = ''text/csv;charset=utf-8;'',
                   download_name =
                     ''smart_facts_export_''
                     @ takeWhile (\<lambda>c. c \<noteq> CHR ''T'') now_iso @ ''.csv'' \<rparr>)"

section \<open>The resolver \<^verbatim>\<open>extract_smart_facts_from_codebase\<close>\<close>

text \<open>
  The environment of the build script: the variable \<^verbatim>\<open>CODEBASE_PATH\<close>, which paths exist,
  and what opening and reading a file gives: its text, or one of the exceptions that
  \<^verbatim>\<open>open\<close> and \<^verbatim>\<open>read\<close> raise, all of them subclasses of \<^verbatim>\<open>Exception\<close>.
\<close>

datatype py_exception = OSError | UnicodeDecodeError

record environment =
  CODEBASE_PATH :: "string option"
  path_exists :: "string \<Rightarrow> bool"
  read_text :: "string \<Rightarrow> py_exception + string"

definition get_hardcoded_insights :: "insight list" where
  "get_hardcoded_insights =
     [\<lparr> insight_id = ''SMRT1'',
        content = ''Interest rates can be unpredictable. But there are ways to access your equity without losing your current low mortgage rate.'',
        status = ''live'',
        priority = 1,
        isDynamic = False,
        hasCta = True,
        cta = Some \<lparr> cta_text = ''See ways to access equity'',
                      cta_url = ''https://www.hometap.com/blog/cash-out-refinance-vs-a-home-equity-loan/'' \<rparr>,
        requiredContext = Some [''SYSTEM''],
        requiresPrimaryUser = False,
        requiresProfileComplete = False,
        templateKeys = Some [] \<rparr>]"

text \<open>\<^verbatim>\<open>os.path.join\<close> of a directory and a relative path.\<close>

definition os_path_join :: "string \<Rightarrow> string \<Rightarrow> string" where
  "os_path_join a b = (if a = [] \<or> last a = CHR ''/'' then a @ b else a @ ''/'' @ b)"

definition possible_paths :: "environment \<Rightarrow> string option list" where
  "possible_paths env =
     [CODEBASE_PATH env, Some ''../hometap'', Some ''../../hometap'', Some ''/tmp/codebase'']"

text \<open>The search loop: the first candidate that is set, not empty and exists.\<close>

fun first_existing :: "environment \<Rightarrow> string option list \<Rightarrow> string option" where
  "first_existing env [] = None"
| "first_existing env (None # ps) = first_existing env ps"
| "first_existing env (Some p # ps) =
     (if p \<noteq> [] \<and> path_exists env p then Some p else first_existing env ps)"

definition extract_from_files :: "environment \<Rightarrow> string \<Rightarrow> py_exception + insight list" where
  "extract_from_files env codebase_path =
     (let definitions_file =
            os_path_join codebase_path
              ''eng_portals/portals/portals/apps/smart_facts/definitions.py'';
          templates_file =
            os_path_join codebase_path
              ''eng_portals/portals/portals/apps/smart_facts/display_templates.py''
      in if path_exists env definitions_file \<and> path_exists env templates_file then
           (case read_text env definitions_file of
              Inl e \<Rightarrow> Inl e
            | Inr definitions_content \<Rightarrow>
                (case read_text env templates_file of
                   Inl e \<Rightarrow> Inl e
                 | Inr templates_content \<Rightarrow> Inr get_hardcoded_insights))
         else Inr [])"

text \<open>
  The \<^verbatim>\<open>try\<close> block holds both branches; \<^verbatim>\<open>except Exception\<close> prints a message and takes
  the hardcoded data. The printed message is not part of the result.
\<close>

definition extract_smart_facts_from_codebase :: "environment \<Rightarrow> py_exception + insight list" where
  "extract_smart_facts_from_codebase env =
     (case (case first_existing env (possible_paths env) of
              Some codebase_path \<Rightarrow> extract_from_files env codebase_path
            | None \<Rightarrow> Inr get_hardcoded_insights) of
        Inl e \<Rightarrow> Inr get_hardcoded_insights
      | Inr extracted \<Rightarrow> Inr extracted)"

section \<open>The behaviour the specification describes\<close>

text \<open>
  The definitions of this section follow the words of the specification, not the code;
  the theorems below compare them with the functions of the script.
\<close>

subsection \<open>Search, status and type predicates\<close>

text \<open>
  The text \<open>q\<close> occurs in the text \<open>s\<close>: \<open>s\<close> is some text, then \<open>q\<close>, then some text.
\<close>

definition is_substring :: "string \<Rightarrow> string \<Rightarrow> bool" where
  "is_substring q s = (\<exists>pre suf. s = pre @ q @ suf)"

text \<open>
  Two characters are equal ignoring case when they are the same character, or one is a
  capital letter and the other the small letter at the same place of the alphabet.
\<close>

definition upper_letters :: string where
  "upper_letters = ''ABCDEFGHIJKLMNOPQRSTUVWXYZ''"

definition lower_letters :: string where
  "lower_letters = ''abcdefghijklmnopqrstuvwxyz''"

definition case_pair :: "char \<Rightarrow> char \<Rightarrow> bool" where
  "case_pair a b = ((a, b) \<in> set (zip upper_letters lower_letters))"

definition eq_ignoring_case :: "char \<Rightarrow> char \<Rightarrow> bool" where
  "eq_ignoring_case a b = (a = b \<or> case_pair a b \<or> case_pair b a)"

text \<open>\<open>s\<close> contains \<open>q\<close> as a case-insensitive substring: some run of \<open>s\<close> equals \<open>q\<close> ignoring case.\<close>

definition contains_ignoring_case :: "string \<Rightarrow> string \<Rightarrow> bool" where
  "contains_ignoring_case s q =
     (\<exists>pre w suf. s = pre @ w @ suf \<and> list_all2 eq_ignoring_case w q)"

definition spec_matchesSearch :: "string \<Rightarrow> insight \<Rightarrow> bool" where
  "spec_matchesSearch q i =
     (q = [] \<or> contains_ignoring_case (insight_id i) q \<or> contains_ignoring_case (content i) q)"

definition spec_matchesStatus :: "string \<Rightarrow> insight \<Rightarrow> bool" where
  "spec_matchesStatus sf i = (sf = [] \<or> status i = sf)"

definition spec_matchesType :: "string \<Rightarrow> insight \<Rightarrow> bool" where
  "spec_matchesType tf i =
     (tf = [] \<or> (tf = ''static'' \<and> \<not> isDynamic i) \<or> (tf = ''dynamic'' \<and> isDynamic i))"

definition spec_matches :: "dashboard \<Rightarrow> insight \<Rightarrow> bool" where
  "spec_matches d i =
     (spec_matchesSearch (searchQuery d) i
      \<and> spec_matchesStatus (statusFilter d) i
      \<and> spec_matchesType (typeFilter d) i)"

text \<open>
  The search predicate in terms of the lowered texts: the query is empty, or the lowered
  query occurs in the lowered id or in the lowered content.
\<close>

definition lowered_matchesSearch :: "(string \<Rightarrow> string) \<Rightarrow> string \<Rightarrow> insight \<Rightarrow> bool" where
  "lowered_matchesSearch toLowerCase q i =
     (q = []
      \<or> is_substring (toLowerCase q) (toLowerCase (insight_id i))
      \<or> is_substring (toLowerCase q) (toLowerCase (content i)))"

definition lowered_matches :: "(string \<Rightarrow> string) \<Rightarrow> dashboard \<Rightarrow> insight \<Rightarrow> bool" where
  "lowered_matches toLowerCase d i =
     (lowered_matchesSearch toLowerCase (searchQuery d) i
      \<and> spec_matchesStatus (statusFilter d) i
      \<and> spec_matchesType (typeFilter d) i)"

subsection \<open>The built-in \<^verbatim>\<open>toLowerCase\<close> on ASCII text\<close>

text \<open>
  ASCII text is text of characters below 128. On such text the built-in moves the
  letters \<open>A\<close> to \<open>Z\<close> (codes 65 to 90) to \<open>a\<close> to \<open>z\<close> and keeps every other character;
  \<open>ascii_toLowerCase\<close> is that mapping, and stands for the built-in in the examples,
  whose texts are ASCII.
\<close>

definition is_ascii :: "string \<Rightarrow> bool" where
  "is_ascii s = list_all (\<lambda>c. (of_char c :: nat) < 128) s"

definition ascii_toLowerChar :: "char \<Rightarrow> char" where
  "ascii_toLowerChar c =
     (let n = (of_char c :: nat) in if 65 \<le> n \<and> n \<le> 90 then char_of (n + 32) else c)"

definition ascii_toLowerCase :: "string \<Rightarrow> string" where
  "ascii_toLowerCase s = map ascii_toLowerChar s"

definition agrees_on_ascii :: "(string \<Rightarrow> string) \<Rightarrow> bool" where
  "agrees_on_ascii toLowerCase = (\<forall>s. is_ascii s \<longrightarrow> toLowerCase s = ascii_toLowerCase s)"

definition ascii_texts :: "dashboard \<Rightarrow> bool" where
  "ascii_texts d =
     (is_ascii (searchQuery d)
      \<and> list_all (\<lambda>i. is_ascii (insight_id i) \<and> is_ascii (content i)) (insights d))"

subsection \<open>Counting\<close>

text \<open>The count of the records with a property: the number of positions that hold one.\<close>

definition spec_count :: "(insight \<Rightarrow> bool) \<Rightarrow> insight list \<Rightarrow> nat" where
  "spec_count P xs = card {k. k < length xs \<and> P (xs ! k)}"

subsection \<open>CSV text\<close>

definition spec_columns :: "string list" where
  "spec_columns =
     [''ID'', ''Status'', ''Priority'', ''Type'', ''Content'', ''Dynamic Variables'',
      ''CTA Text'', ''CTA URL'', ''Required Context'', ''Requires Primary User'',
      ''Requires Profile Complete'', ''Has CTA'']"

definition spec_header_row :: string where
  "spec_header_row =
     ''ID,Status,Priority,Type,Content,Dynamic Variables,CTA Text,CTA URL,Required Context,Requires Primary User,Requires Profile Complete,Has CTA''"

definition spec_needs_quotes :: "string \<Rightarrow> bool" where
  "spec_needs_quotes v = (CHR '','' \<in> set v \<or> DQ \<in> set v \<or> LF \<in> set v)"

definition spec_csv_field :: "string \<Rightarrow> string" where
  "spec_csv_field v =
     (if spec_needs_quotes v
      then [DQ] @ concat (map (\<lambda>c. if c = DQ then [DQ, DQ] else [c]) v) @ [DQ]
      else v)"

text \<open>The raw values of a row: the text of each value of the row object, in its order.\<close>

definition raw_values :: "insight \<Rightarrow> string list" where
  "raw_values i = map (\<lambda>kv. js_to_string (snd kv)) (csvRow i)"

definition spec_strip_newlines :: "string \<Rightarrow> string" where
  "spec_strip_newlines s =
     concat (map (\<lambda>c. if c = LF then '' '' else if c = CR then [] else [c]) s)"

text \<open>Joined with a separator: the first element, then every further one after the separator.\<close>

definition spec_joined :: "string \<Rightarrow> string list \<Rightarrow> string" where
  "spec_joined sep xs =
     (case xs of [] \<Rightarrow> [] | x # rest \<Rightarrow> x @ concat (map (\<lambda>y. sep @ y) rest))"

definition spec_yes_no :: "bool \<Rightarrow> string" where
  "spec_yes_no b = (if b then ''Yes'' else ''No'')"

definition or_empty :: "string list option \<Rightarrow> string list" where
  "or_empty ks = (case ks of None \<Rightarrow> [] | Some xs \<Rightarrow> xs)"

text \<open>The twelve values of a record, column by column, before any quoting.\<close>

definition spec_row :: "insight \<Rightarrow> string list" where
  "spec_row i =
     [insight_id i,
      status i,
      js_to_string (JNum (priority i)),
      (if isDynamic i then ''Dynamic'' else ''Static''),
      spec_strip_newlines (content i),
      spec_joined ''; '' (or_empty (templateKeys i)),
      (case cta i of None \<Rightarrow> [] | Some c \<Rightarrow> cta_text c),
      (case cta i of None \<Rightarrow> [] | Some c \<Rightarrow> cta_url c),
      spec_joined ''; '' (or_empty (requiredContext i)),
      spec_yes_no (requiresPrimaryUser i),
      spec_yes_no (requiresProfileComplete i),
      spec_yes_no (hasCta i)]"

section \<open>Example inputs\<close>

definition ex_insight_A :: insight where
  "ex_insight_A =
     \<lparr> insight_id = ''A'', content = ''Alpha rates'', status = ''live'', priority = 2,
       isDynamic = False, hasCta = False, cta = None, requiredContext = None,
       requiresPrimaryUser = False, requiresProfileComplete = False, templateKeys = None \<rparr>"

definition ex_insight_B :: insight where
  "ex_insight_B =
     \<lparr> insight_id = ''B'', content = ''Hello {name}'', status = ''retired'', priority = 1,
       isDynamic = True, hasCta = True,
       cta = Some \<lparr> cta_text = ''Go'', cta_url = ''https://example.com/a,b'' \<rparr>,
       requiredContext = Some [''SYSTEM'', ''HOME''],
       requiresPrimaryUser = True, requiresProfileComplete = False,
       templateKeys = Some [''name''] \<rparr>"

definition hello_content :: string where
  "hello_content = ''Hello, '' @ [DQ] @ ''World'' @ [DQ, LF] @ ''Line2''"

definition ex_insight_H :: insight where
  "ex_insight_H =
     \<lparr> insight_id = ''H'', content = hello_content, status = ''draft'', priority = 12,
       isDynamic = True, hasCta = False, cta = None, requiredContext = None,
       requiresPrimaryUser = False, requiresProfileComplete = True,
       templateKeys = Some [''x'', ''y''] \<rparr>"

definition ex_dashboard :: dashboard where
  "ex_dashboard =
     \<lparr> searchQuery = [], statusFilter = [], typeFilter = [], viewMode = ''grid'',
       insights = [ex_insight_A, ex_insight_B] \<rparr>"

definition ex_search :: dashboard where
  "ex_search =
     \<lparr> searchQuery = ''aLp'', statusFilter = ''live'', typeFilter = ''static'',
       viewMode = ''list'', insights = [ex_insight_A, ex_insight_B] \<rparr>"

definition ex_export :: dashboard where
  "ex_export =
     \<lparr> searchQuery = ''line'', statusFilter = [], typeFilter = ''dynamic'',
       viewMode = ''grid'', insights = [ex_insight_A, ex_insight_H] \<rparr>"

text \<open>
  A record whose content is the letter \<open>A\<close> and the Greek capital sigma (U+03A3, the bytes
  CE A3), searched for the capital sigma. The built-in lowers a capital sigma that ends
  a word to the final small sigma (U+03C2, the bytes CF 82) and any other capital sigma
  to the small sigma (U+03C3, the bytes CF 83); \<open>sigma_toLowerCase\<close> holds these two
  values of the built-in and is the ASCII mapping on every other text.
\<close>

definition capital_sigma :: string where
  "capital_sigma = [CHR 0xCE, CHR 0xA3]"

definition small_sigma :: string where
  "small_sigma = [CHR 0xCF, CHR 0x83]"

definition final_sigma :: string where
  "final_sigma = [CHR 0xCF, CHR 0x82]"

definition sigma_toLowerCase :: "string \<Rightarrow> string" where
  "sigma_toLowerCase s =
     (if s = ''A'' @ capital_sigma then ''a'' @ final_sigma
      else if s = capital_sigma then small_sigma
      else ascii_toLowerCase s)"

definition ex_insight_sigma :: insight where
  "ex_insight_sigma =
     \<lparr> insight_id = ''S1'', content = ''A'' @ capital_sigma, status = ''live'', priority = 3,
       isDynamic = False, hasCta = False, cta = None, requiredContext = Some [''SYSTEM''],
       requiresPrimaryUser = False, requiresProfileComplete = False,
       templateKeys = Some [] \<rparr>"

definition ex_sigma :: dashboard where
  "ex_sigma =
     \<lparr> searchQuery = capital_sigma, statusFilter = [], typeFilter = [], viewMode = ''grid'',
       insights = [ex_insight_sigma] \<rparr>"

text \<open>The built dashboard with the status selector on \<^verbatim>\<open>retired\<close>: nothing is shown.\<close>

definition ex_none_shown :: dashboard where
  "ex_none_shown =
     \<lparr> searchQuery = [], statusFilter = ''retired'', typeFilter = [],
       viewMode = ''grid'', insights = get_hardcoded_insights \<rparr>"

text \<open>
  Two environments with a codebase directory that lacks an expected file: the fixed
  location \<^verbatim>\<open>/tmp/codebase\<close> with neither file, and a directory named by the variable
  with the definitions file only.
\<close>

definition env_tmp_only :: environment where
  "env_tmp_only =
     \<lparr> CODEBASE_PATH = None,
       path_exists = (\<lambda>p. p = ''/tmp/codebase''),
       read_text = (\<lambda>p. Inl OSError) \<rparr>"

definition env_no_templates :: environment where
  "env_no_templates =
     \<lparr> CODEBASE_PATH = Some ''/srv/hometap'',
       path_exists = (\<lambda>p. p = ''/srv/hometap''
          \<or> p = ''/srv/hometap/eng_portals/portals/portals/apps/smart_facts/definitions.py''),
       read_text = (\<lambda>p. Inr ''# definitions'') \<rparr>"

definition env_nothing :: environment where
  "env_nothing =
     \<lparr> CODEBASE_PATH = None, path_exists = (\<lambda>p. False), read_text = (\<lambda>p. Inl OSError) \<rparr>"

section \<open>Properties of the string operations\<close>

lemma startsWith_iff: "startsWith s q \<longleftrightarrow> (\<exists>suf. s = q @ suf)"
  by (induction s q rule: startsWith.induct) auto

lemma includes_str_iff: "includes_str s q \<longleftrightarrow> (\<exists>pre suf. s = pre @ q @ suf)"
proof (induction s)
  case Nil
  then show ?case by auto
next
  case (Cons c s)
  show ?case
  proof
    assume "includes_str (c # s) q"
    then consider "startsWith (c # s) q" | "includes_str s q" by auto
    then show "\<exists>pre suf. c # s = pre @ q @ suf"
    proof cases
      case 1
      then obtain suf where "c # s = q @ suf" by (auto simp: startsWith_iff)
      then have "c # s = [] @ q @ suf" by simp
      then show ?thesis by blast
    next
      case 2
      then obtain pre suf where "s = pre @ q @ suf" using Cons.IH by blast
      then have "c # s = (c # pre) @ q @ suf" by simp
      then show ?thesis by blast
    qed
  next
    assume "\<exists>pre suf. c # s = pre @ q @ suf"
    then obtain pre suf where e: "c # s = pre @ q @ suf" by blast
    show "includes_str (c # s) q"
    proof (cases pre)
      case Nil
      with e have "startsWith (c # s) q" by (auto simp: startsWith_iff)
      then show ?thesis by simp
    next
      case (Cons p ps)
      with e have "s = ps @ q @ suf" by simp
      then have "includes_str s q" using Cons.IH by blast
      then show ?thesis by simp
    qed
  qed
qed

lemma includes_str_single: "includes_str s [c] \<longleftrightarrow> c \<in> set s"
  by (induction s) auto

text \<open>The alphabet table against the arithmetic of \<open>ascii_toLowerChar\<close>.\<close>

lemma case_pair_sound:
  "\<forall>(a, b) \<in> set (zip upper_letters lower_letters).
     65 \<le> (of_char a :: nat) \<and> (of_char a :: nat) \<le> 90
     \<and> b = char_of (of_char a + 32 :: nat)"
  unfolding upper_letters_def lower_letters_def by code_simp

lemma case_pair_complete:
  "\<forall>n \<in> set [65 ..< 91 :: nat].
     (char_of n, char_of (n + 32)) \<in> set (zip upper_letters lower_letters)"
  unfolding upper_letters_def lower_letters_def by code_simp

lemma case_pair_iff:
  "case_pair a b \<longleftrightarrow>
     65 \<le> (of_char a :: nat) \<and> (of_char a :: nat) \<le> 90
     \<and> b = char_of (of_char a + 32 :: nat)"
  (is "_ \<longleftrightarrow> ?R")
proof
  assume "case_pair a b"
  then show ?R
    using case_pair_sound unfolding case_pair_def by blast
next
  assume h: ?R
  then have "(of_char a :: nat) \<in> {65 ..< 91}" by auto
  then have "(of_char a :: nat) \<in> set [65 ..< 91]" by (simp only: set_upt)
  then have "(char_of (of_char a :: nat), char_of ((of_char a :: nat) + 32))
      \<in> set (zip upper_letters lower_letters)"
    using case_pair_complete by blast
  with h show "case_pair a b" by (simp add: case_pair_def)
qed

lemma ascii_toLowerChar_eq_iff: "ascii_toLowerChar a = ascii_toLowerChar b \<longleftrightarrow> eq_ignoring_case a b"
proof -
  have up: "of_char (char_of (n + 32 :: nat) :: char) = n + 32" if "n \<le> 90" for n :: nat
    using that by simp
  show ?thesis
    unfolding eq_ignoring_case_def case_pair_iff ascii_toLowerChar_def Let_def
    by (auto simp: up)
qed

lemma list_all2_eq_ignoring_case:
  "list_all2 eq_ignoring_case w q \<longleftrightarrow> ascii_toLowerCase w = ascii_toLowerCase q"
proof
  assume "list_all2 eq_ignoring_case w q"
  then show "ascii_toLowerCase w = ascii_toLowerCase q"
    by (induction rule: list_all2_induct) (simp_all add: ascii_toLowerCase_def ascii_toLowerChar_eq_iff)
next
  assume "ascii_toLowerCase w = ascii_toLowerCase q"
  then show "list_all2 eq_ignoring_case w q"
  proof (induction w arbitrary: q)
    case Nil
    then show ?case by (simp add: ascii_toLowerCase_def)
  next
    case (Cons a w)
    then obtain b q' where q: "q = b # q'" by (cases q) (auto simp: ascii_toLowerCase_def)
    with Cons.prems have "ascii_toLowerChar a = ascii_toLowerChar b" and "ascii_toLowerCase w = ascii_toLowerCase q'"
      by (simp_all add: ascii_toLowerCase_def)
    with Cons.IH q show ?case by (simp add: ascii_toLowerChar_eq_iff)
  qed
qed

lemma includes_ascii_lowered:
  "includes_str (ascii_toLowerCase s) (ascii_toLowerCase q) \<longleftrightarrow> contains_ignoring_case s q"
proof
  assume "includes_str (ascii_toLowerCase s) (ascii_toLowerCase q)"
  then obtain pre suf where "map ascii_toLowerChar s = pre @ map ascii_toLowerChar q @ suf"
    by (auto simp: includes_str_iff ascii_toLowerCase_def)
  then obtain p r where s1: "s = p @ r" and r: "map ascii_toLowerChar q @ suf = map ascii_toLowerChar r"
    unfolding map_eq_append_conv by blast
  from r [symmetric] obtain w t where s2: "r = w @ t"
    and "map ascii_toLowerChar q = map ascii_toLowerChar w"
    unfolding map_eq_append_conv by blast
  then have "list_all2 eq_ignoring_case w q"
    by (simp add: list_all2_eq_ignoring_case ascii_toLowerCase_def)
  with s1 s2 show "contains_ignoring_case s q"
    unfolding contains_ignoring_case_def by blast
next
  assume "contains_ignoring_case s q"
  then obtain pre w suf where s: "s = pre @ w @ suf" and "list_all2 eq_ignoring_case w q"
    unfolding contains_ignoring_case_def by blast
  then have "ascii_toLowerCase w = ascii_toLowerCase q"
    by (simp add: list_all2_eq_ignoring_case)
  with s have "ascii_toLowerCase s = ascii_toLowerCase pre @ ascii_toLowerCase q @ ascii_toLowerCase suf"
    by (simp add: ascii_toLowerCase_def)
  then show "includes_str (ascii_toLowerCase s) (ascii_toLowerCase q)"
    unfolding includes_str_iff by blast
qed

lemma matches_lowered:
  "(matchesSearch toLowerCase d i \<and> matchesStatus d i \<and> matchesType d i)
     = lowered_matches toLowerCase d i"
  by (simp add: matchesSearch_def matchesStatus_def matchesType_def includes_str_iff
      lowered_matches_def lowered_matchesSearch_def is_substring_def
      spec_matchesStatus_def spec_matchesType_def)

lemma matches_spec_ascii:
  assumes "agrees_on_ascii toLowerCase" and "is_ascii (searchQuery d)"
    and "is_ascii (insight_id i)" and "is_ascii (content i)"
  shows "(matchesSearch toLowerCase d i \<and> matchesStatus d i \<and> matchesType d i)
     = spec_matches d i"
proof -
  from assms have "toLowerCase (searchQuery d) = ascii_toLowerCase (searchQuery d)"
    and "toLowerCase (insight_id i) = ascii_toLowerCase (insight_id i)"
    and "toLowerCase (content i) = ascii_toLowerCase (content i)"
    by (simp_all add: agrees_on_ascii_def)
  then show ?thesis
    by (simp add: matchesSearch_def matchesStatus_def matchesType_def includes_ascii_lowered
        spec_matches_def spec_matchesSearch_def spec_matchesStatus_def spec_matchesType_def)
qed

lemma filteredInsights_ascii:
  assumes "agrees_on_ascii toLowerCase" and "ascii_texts d"
  shows "filteredInsights toLowerCase d = filter (spec_matches d) (insights d)"
proof -
  have "(matchesSearch toLowerCase d i \<and> matchesStatus d i \<and> matchesType d i)
      = spec_matches d i" if "i \<in> set (insights d)" for i
    using assms that matches_spec_ascii [of toLowerCase d i]
    by (simp add: ascii_texts_def list_all_iff)
  then show ?thesis
    unfolding filteredInsights_def by (auto intro: filter_cong)
qed

text \<open>A text with a character of code 128 or more is no ASCII text.\<close>

lemma agrees_on_ascii_sigma: "agrees_on_ascii sigma_toLowerCase"
proof -
  have "s \<noteq> ''A'' @ capital_sigma \<and> s \<noteq> capital_sigma" if "is_ascii s" for s
    using that by (auto simp: is_ascii_def capital_sigma_def)
  then show ?thesis
    by (simp add: agrees_on_ascii_def sigma_toLowerCase_def)
qed

lemma filter_subseq_mono:
  "(\<And>x. x \<in> set xs \<Longrightarrow> P x \<Longrightarrow> Q x) \<Longrightarrow> subseq (filter P xs) (filter Q xs)"
  by (induction xs) auto

section \<open>Properties of \<^verbatim>\<open>filteredInsights\<close> and \<^verbatim>\<open>stats\<close>\<close>

text \<open>
  Claim C1, as the script has it. For every base sequence, every filter state and
  whatever the built-in \<^verbatim>\<open>toLowerCase\<close> computes, \<^verbatim>\<open>filteredInsights\<close> keeps exactly the
  insights of the base sequence that satisfy matchesSearch and matchesStatus and
  matchesType, where matchesSearch holds if and only if the query is empty or the
  lowered query occurs in the lowered id or in the lowered content; matchesStatus if
  and only if the status filter is empty or equals the status; matchesType if and only
  if the type filter is empty, or is \<^verbatim>\<open>static\<close> on a record that is not dynamic, or is
  \<^verbatim>\<open>dynamic\<close> on a dynamic one. When the query, the ids and the contents are ASCII text,
  on which the built-in lowers the letters A to Z, matchesSearch is the query being
  empty or occurring in the id or in the content as a case-insensitive substring.
\<close>

theorem filteredInsights_iff_lowered:
  "filteredInsights toLowerCase d = filter (lowered_matches toLowerCase d) (insights d)
   \<and> (i \<in> set (filteredInsights toLowerCase d)
        \<longleftrightarrow> i \<in> set (insights d) \<and> lowered_matches toLowerCase d i)
   \<and> (agrees_on_ascii toLowerCase \<and> ascii_texts d \<longrightarrow>
        filteredInsights toLowerCase d = filter (spec_matches d) (insights d)
        \<and> (i \<in> set (filteredInsights toLowerCase d)
             \<longleftrightarrow> i \<in> set (insights d) \<and> spec_matches d i))"
proof -
  have 1: "filteredInsights toLowerCase d
      = filter (lowered_matches toLowerCase d) (insights d)"
    by (simp add: filteredInsights_def matches_lowered)
  have 2: "filteredInsights toLowerCase d = filter (spec_matches d) (insights d)"
    if "agrees_on_ascii toLowerCase \<and> ascii_texts d"
    using that filteredInsights_ascii [of toLowerCase d] by simp
  from 1 2 show ?thesis by auto
qed

theorem filteredInsights_iff_lowered_witness:
  "agrees_on_ascii sigma_toLowerCase \<and> ascii_texts ex_search
   \<and> filteredInsights sigma_toLowerCase ex_search = [ex_insight_A]
   \<and> ex_insight_A \<in> set (insights ex_search) \<and> spec_matches ex_search ex_insight_A
   \<and> lowered_matches sigma_toLowerCase ex_search ex_insight_A
   \<and> ex_insight_B \<in> set (insights ex_search) \<and> \<not> spec_matches ex_search ex_insight_B"
proof -
  have f: "filteredInsights sigma_toLowerCase ex_search = [ex_insight_A]"
    unfolding filteredInsights_def matchesSearch_def matchesStatus_def matchesType_def
      ex_search_def ex_insight_A_def ex_insight_B_def
    by code_simp
  have t: "ascii_texts ex_search"
    unfolding ascii_texts_def ex_search_def ex_insight_A_def ex_insight_B_def
    by code_simp
  have ne: "ex_insight_B \<noteq> ex_insight_A"
    by (simp add: ex_insight_A_def ex_insight_B_def)
  have m: "ex_insight_A \<in> set (insights ex_search) \<and> ex_insight_B \<in> set (insights ex_search)"
    by (simp add: ex_search_def)
  note thmA = filteredInsights_iff_lowered
    [where toLowerCase = sigma_toLowerCase and d = ex_search and i = ex_insight_A]
  note thmB = filteredInsights_iff_lowered
    [where toLowerCase = sigma_toLowerCase and d = ex_search and i = ex_insight_B]
  have l: "lowered_matches sigma_toLowerCase ex_search ex_insight_A"
    using thmA [THEN conjunct2, THEN conjunct1] f by simp
  have a: "spec_matches ex_search ex_insight_A"
    using thmA [THEN conjunct2, THEN conjunct2] agrees_on_ascii_sigma t f by simp
  have b: "\<not> spec_matches ex_search ex_insight_B"
    using thmB [THEN conjunct2, THEN conjunct2] agrees_on_ascii_sigma t f ne m by simp
  from agrees_on_ascii_sigma t f m l a b show ?thesis by simp
qed

text \<open>
  Claim C1 as it is stated fails beyond ASCII text. The content \<open>A\<close> and capital sigma
  contains the query capital sigma as it stands, so also as a case-insensitive
  substring. The built-in lowers the content to \<open>a\<close> and the final small sigma, and the
  query to the small sigma, which does not occur there: \<^verbatim>\<open>filteredInsights\<close> drops the
  record.
\<close>

theorem filteredInsights_sigma_counterexample:
  "ex_insight_sigma \<in> set (insights ex_sigma)
   \<and> spec_matches ex_sigma ex_insight_sigma
   \<and> sigma_toLowerCase (content ex_insight_sigma) = ''a'' @ final_sigma
   \<and> sigma_toLowerCase (searchQuery ex_sigma) = small_sigma
   \<and> ex_insight_sigma \<notin> set (filteredInsights sigma_toLowerCase ex_sigma)"
proof -
  have m: "ex_insight_sigma \<in> set (insights ex_sigma)"
    by (simp add: ex_sigma_def)
  have "content ex_insight_sigma = ''A'' @ capital_sigma @ []"
    and "list_all2 eq_ignoring_case capital_sigma capital_sigma"
    by (simp_all add: ex_insight_sigma_def capital_sigma_def eq_ignoring_case_def)
  then have "contains_ignoring_case (content ex_insight_sigma) capital_sigma"
    unfolding contains_ignoring_case_def by blast
  then have s: "spec_matches ex_sigma ex_insight_sigma"
    by (simp add: spec_matches_def spec_matchesSearch_def spec_matchesStatus_def
        spec_matchesType_def ex_sigma_def)
  have c: "sigma_toLowerCase (content ex_insight_sigma) = ''a'' @ final_sigma"
    by (simp add: sigma_toLowerCase_def ex_insight_sigma_def)
  have q: "sigma_toLowerCase (searchQuery ex_sigma) = small_sigma"
    by (simp add: sigma_toLowerCase_def ex_sigma_def capital_sigma_def)
  have f: "filteredInsights sigma_toLowerCase ex_sigma = []"
    unfolding filteredInsights_def matchesSearch_def matchesStatus_def matchesType_def
      ex_sigma_def ex_insight_sigma_def
    by code_simp
  from m s c q f show ?thesis by simp
qed

text \<open>
  Claim C5. For every base sequence and every filter state, \<^verbatim>\<open>filteredInsights\<close> is a
  subsequence of the base sequence: its elements come from the base sequence in their
  original relative order. With the query, the status filter and the type filter all
  empty it is the whole base sequence.
\<close>

theorem filteredInsights_subseq:
  "subseq (filteredInsights toLowerCase d) (insights d)
   \<and> (searchQuery d = [] \<and> statusFilter d = [] \<and> typeFilter d = []
        \<longrightarrow> filteredInsights toLowerCase d = insights d)"
  by (simp add: filteredInsights_def matchesSearch_def matchesStatus_def matchesType_def)

theorem filteredInsights_subseq_witness:
  "searchQuery ex_dashboard = [] \<and> statusFilter ex_dashboard = []
   \<and> typeFilter ex_dashboard = []
   \<and> filteredInsights ascii_toLowerCase ex_dashboard = [ex_insight_A, ex_insight_B]
   \<and> subseq (filteredInsights ascii_toLowerCase ex_search) [ex_insight_A, ex_insight_B]"
  using filteredInsights_subseq [where toLowerCase = ascii_toLowerCase and d = ex_dashboard]
    filteredInsights_subseq [where toLowerCase = ascii_toLowerCase and d = ex_search]
  by (simp add: ex_dashboard_def ex_search_def)

text \<open>
  Claim C10. Narrowing a filter only removes results: with the query and the type filter
  fixed, the result under any status filter is a subsequence of the result under the
  empty status filter; with the query and the status filter fixed, the result under any
  type filter is a subsequence of the result under the empty type filter.
\<close>

theorem filteredInsights_narrowing:
  "subseq (filteredInsights toLowerCase (d\<lparr>statusFilter := s\<rparr>)) (filteredInsights toLowerCase (d\<lparr>statusFilter := []\<rparr>))
   \<and> subseq (filteredInsights toLowerCase (d\<lparr>typeFilter := t\<rparr>)) (filteredInsights toLowerCase (d\<lparr>typeFilter := []\<rparr>))"
  unfolding filteredInsights_def
  by (auto intro!: filter_subseq_mono simp: matchesSearch_def matchesStatus_def matchesType_def)

theorem filteredInsights_narrowing_witness:
  "subseq (filteredInsights ascii_toLowerCase (ex_dashboard\<lparr>statusFilter := ''live''\<rparr>)) [ex_insight_A, ex_insight_B]
   \<and> subseq (filteredInsights ascii_toLowerCase (ex_dashboard\<lparr>typeFilter := ''dynamic''\<rparr>)) [ex_insight_A, ex_insight_B]"
proof -
  have "filteredInsights ascii_toLowerCase (ex_dashboard\<lparr>statusFilter := []\<rparr>) = [ex_insight_A, ex_insight_B]"
    and "filteredInsights ascii_toLowerCase (ex_dashboard\<lparr>typeFilter := []\<rparr>) = [ex_insight_A, ex_insight_B]"
    by (simp_all add: filteredInsights_def matchesSearch_def matchesStatus_def matchesType_def
        ex_dashboard_def)
  with filteredInsights_narrowing [where toLowerCase = ascii_toLowerCase and d = ex_dashboard and s = "''live''" and t = "''dynamic''"]
  show ?thesis by simp
qed

text \<open>
  Claim C4. \<^verbatim>\<open>stats\<close> counts over the full base sequence: total is the number of
  insights, live, review and retired the numbers of insights with that status, dynamic
  and withCta the numbers with the flag set. Changing the query, the status filter, the
  type filter or the view mode changes no counter. For the base sequence of a live,
  static record A without call to action and a retired, dynamic record B with one, the
  counters are total 2, live 1, review 0, dynamic 1, withCta 1, retired 1.
\<close>

theorem stats_full_base:
  "stats d =
     \<lparr> total_stat = length (insights d),
       live = spec_count (\<lambda>i. status i = ''live'') (insights d),
       review = spec_count (\<lambda>i. status i = ''review'') (insights d),
       dynamic = spec_count isDynamic (insights d),
       withCta = spec_count hasCta (insights d),
       retired = spec_count (\<lambda>i. status i = ''retired'') (insights d) \<rparr>
   \<and> stats (d\<lparr>searchQuery := q, statusFilter := s, typeFilter := t, viewMode := v\<rparr>) = stats d
   \<and> (insight_id a = ''A'' \<and> status a = ''live'' \<and> \<not> isDynamic a \<and> \<not> hasCta a
        \<and> insight_id b = ''B'' \<and> status b = ''retired'' \<and> isDynamic b \<and> hasCta b
        \<and> insights d = [a, b]
      \<longrightarrow> stats d = \<lparr> total_stat = 2, live = 1, review = 0, dynamic = 1, withCta = 1,
                       retired = 1 \<rparr>)"
proof -
  have c: "length (filter P xs) = spec_count P xs" for P and xs :: "insight list"
    by (simp add: spec_count_def length_filter_conv_card)
  have 1: "stats d =
     \<lparr> total_stat = length (insights d),
       live = spec_count (\<lambda>i. status i = ''live'') (insights d),
       review = spec_count (\<lambda>i. status i = ''review'') (insights d),
       dynamic = spec_count isDynamic (insights d),
       withCta = spec_count hasCta (insights d),
       retired = spec_count (\<lambda>i. status i = ''retired'') (insights d) \<rparr>"
    by (simp add: stats_def c)
  have 2: "stats (d\<lparr>searchQuery := q, statusFilter := s, typeFilter := t, viewMode := v\<rparr>)
      = stats d"
    by (simp add: stats_def)
  have 3: "stats d = \<lparr> total_stat = 2, live = 1, review = 0, dynamic = 1, withCta = 1,
                       retired = 1 \<rparr>"
    if "insight_id a = ''A'' \<and> status a = ''live'' \<and> \<not> isDynamic a \<and> \<not> hasCta a
        \<and> insight_id b = ''B'' \<and> status b = ''retired'' \<and> isDynamic b \<and> hasCta b
        \<and> insights d = [a, b]"
    using that by (simp add: stats_def)
  from 1 2 3 show ?thesis by blast
qed

theorem stats_full_base_witness:
  "insight_id ex_insight_A = ''A'' \<and> status ex_insight_A = ''live''
   \<and> \<not> isDynamic ex_insight_A \<and> \<not> hasCta ex_insight_A
   \<and> insight_id ex_insight_B = ''B'' \<and> status ex_insight_B = ''retired''
   \<and> isDynamic ex_insight_B \<and> hasCta ex_insight_B
   \<and> insights ex_search = [ex_insight_A, ex_insight_B]
   \<and> stats ex_search = \<lparr> total_stat = 2, live = 1, review = 0, dynamic = 1, withCta = 1,
                           retired = 1 \<rparr>"
  using stats_full_base [where d = ex_search and a = ex_insight_A and b = ex_insight_B,
      THEN conjunct2, THEN conjunct2]
  by (simp add: ex_search_def ex_insight_A_def ex_insight_B_def)


section \<open>Properties of the CSV export\<close>

lemma replace_all_concat: "replace_all c r s = concat (map (\<lambda>x. if x = c then r else [x]) s)"
  by (induction s) auto

lemma array_join_spec: "array_join sep xs = spec_joined sep xs"
  by (induction sep xs rule: array_join.induct) (auto simp: spec_joined_def)

lemma strip_spec: "replace_all CR [] (replace_all LF '' '' s) = spec_strip_newlines s"
  by (induction s) (auto simp: spec_strip_newlines_def LF_def CR_def)

text \<open>The text of a number has digits only, so it never needs quotes.\<close>

lemma nat_to_string_digits:
  "c \<in> set (nat_to_string n) \<Longrightarrow> 48 \<le> (of_char c :: nat) \<and> (of_char c :: nat) \<le> 57"
proof (induction n rule: nat_to_string.induct)
  case (1 n)
  show ?case
  proof (cases "n < 10")
    case True
    with "1.prems" show ?thesis by (simp add: nat_to_string.simps [of n])
  next
    case False
    with "1.prems" have "c \<in> set (nat_to_string (n div 10)) \<or> c = char_of (48 + n mod 10)"
      by (auto simp: nat_to_string.simps [of n])
    then show ?thesis
    proof
      assume "c \<in> set (nat_to_string (n div 10))"
      with False "1.IH" show ?thesis by simp
    next
      assume c: "c = char_of (48 + n mod 10)"
      have "n mod 10 < 10" by simp
      then have "(48 + n mod 10) mod 256 = 48 + n mod 10" by simp
      with c show ?thesis by simp
    qed
  qed
qed

lemma number_text_plain: "\<not> spec_needs_quotes (js_to_string (JNum n))"
proof -
  have d: "\<not> spec_needs_quotes (nat_to_string m)" for m
    using nat_to_string_digits [of "CHR '',''" m] nat_to_string_digits [of DQ m]
      nat_to_string_digits [of LF m]
    by (auto simp: spec_needs_quotes_def DQ_def LF_def)
  show ?thesis
    using d [of "nat n"] d [of "nat (- n)"]
    by (auto simp: spec_needs_quotes_def DQ_def LF_def)
qed

lemma escapeValue_spec: "js_to_string (escapeValue v) = spec_csv_field (js_to_string v)"
proof (cases v)
  case (JStr s)
  then show ?thesis
    by (simp add: spec_csv_field_def spec_needs_quotes_def includes_str_single
        replace_all_concat)
next
  case (JNum n)
  have "spec_csv_field (js_to_string (JNum n)) = js_to_string (JNum n)"
    using number_text_plain [of n] unfolding spec_csv_field_def by (simp only: if_False)
  with JNum show ?thesis by simp
qed

text \<open>Looking every key of a row up in the row itself gives the values in their order.\<close>

lemma csvFields_own_keys:
  assumes "distinct (map fst row)"
  shows "csvFields (map fst row) row = map (\<lambda>kv. spec_csv_field (js_to_string (snd kv))) row"
proof -
  have "map_of row (fst kv) = Some (snd kv)" if "kv \<in> set row" for kv
    using assms that by (cases kv) simp
  then show ?thesis
    by (simp add: csvFields_def escapeValue_spec)
qed

lemma csvRow_keys: "map fst (csvRow i) = spec_columns"
  by (simp add: csvRow_def spec_columns_def)

lemma spec_columns_distinct: "distinct spec_columns"
  by (simp add: spec_columns_def)

lemma header_row: "array_join '','' spec_columns = spec_header_row"
  by (simp add: spec_columns_def spec_header_row_def)

lemma csvFields_row: "csvFields spec_columns (csvRow i) = map spec_csv_field (raw_values i)"
  using csvFields_own_keys [of "csvRow i"] spec_columns_distinct
  by (simp add: csvRow_keys raw_values_def)

lemma exportToCSV_nonempty:
  assumes "filteredInsights toLowerCase d \<noteq> []"
  shows "exportToCSV toLowerCase now_iso d =
     Inr \<lparr> blob_text =
             array_join [LF]
               (spec_header_row
                # map (\<lambda>i. array_join '','' (map spec_csv_field (raw_values i)))
                    (filteredInsights toLowerCase d)),
           blob_type = ''text/csv;charset=utf-8;'',
           download_name =
             ''smart_facts_export_'' @ takeWhile (\<lambda>c. c \<noteq> CHR ''T'') now_iso @ ''.csv'' \<rparr>"
proof -
  from assms obtain i rest where f: "filteredInsights toLowerCase d = i # rest"
    by (cases "filteredInsights toLowerCase d") auto
  have k: "object_keys_first (map csvRow (filteredInsights toLowerCase d)) = Inr spec_columns"
    by (simp add: f object_keys_first_def csvRow_keys)
  show ?thesis
    unfolding exportToCSV_def Let_def k
    by (simp add: header_row csvFields_row comp_def)
qed

lemma exportToCSV_empty:
  "filteredInsights toLowerCase d = [] \<Longrightarrow> exportToCSV toLowerCase now_iso d = Inl TypeError"
  by (simp add: exportToCSV_def object_keys_first_def)

lemma csvRow_values:
  "map snd (csvRow i) =
     [JStr (insight_id i), JStr (status i), JNum (priority i),
      JStr (if isDynamic i then ''Dynamic'' else ''Static''),
      JStr (spec_strip_newlines (content i)),
      JStr (spec_joined ''; '' (or_empty (templateKeys i))),
      JStr (case cta i of None \<Rightarrow> [] | Some c \<Rightarrow> cta_text c),
      JStr (case cta i of None \<Rightarrow> [] | Some c \<Rightarrow> cta_url c),
      JStr (spec_joined ''; '' (or_empty (requiredContext i))),
      JStr (spec_yes_no (requiresPrimaryUser i)),
      JStr (spec_yes_no (requiresProfileComplete i)),
      JStr (spec_yes_no (hasCta i))]"
proof -
  have j: "(case ks of Some xs \<Rightarrow> array_join ''; '' xs | None \<Rightarrow> [])
      = spec_joined ''; '' (or_empty ks)" for ks
    by (cases ks) (simp_all add: or_empty_def array_join_spec spec_joined_def)
  show ?thesis
    by (simp add: csvRow_def strip_spec j spec_yes_no_def)
qed

text \<open>
  Claim C3. In the CSV text of \<^verbatim>\<open>exportToCSV\<close> a field is its raw value between double
  quotes, with the double quotes inside doubled, exactly when the raw value contains a
  comma, a double quote or a newline, and the raw value itself otherwise; the first line
  is the column names joined by commas, unquoted, and the lines are joined by one
  newline. A record whose content is \<open>Hello, "World"\<close>, a newline, \<open>Line2\<close> and whose
  template keys are \<open>x\<close> and \<open>y\<close> gives the Content field
  \<open>"Hello, ""World"" Line2"\<close> and the Dynamic Variables field \<open>x; y\<close>.
\<close>

theorem exportToCSV_quoting:
  "(filteredInsights toLowerCase d \<noteq> [] \<longrightarrow>
      (\<exists>dl. exportToCSV toLowerCase now_iso d = Inr dl
         \<and> blob_text dl =
             array_join [LF]
               (spec_header_row
                # map (\<lambda>i. array_join '','' (map spec_csv_field (raw_values i)))
                    (filteredInsights toLowerCase d))))
   \<and> (content i = ''Hello, '' @ [DQ] @ ''World'' @ [DQ, LF] @ ''Line2''
        \<and> templateKeys i = Some [''x'', ''y'']
      \<longrightarrow> csvFields (map fst (csvRow i)) (csvRow i) ! 4
            = [DQ] @ ''Hello, '' @ [DQ, DQ] @ ''World'' @ [DQ, DQ] @ '' Line2'' @ [DQ]
          \<and> csvFields (map fst (csvRow i)) (csvRow i) ! 5 = ''x; y'')"
proof -
  have 1: "\<exists>dl. exportToCSV toLowerCase now_iso d = Inr dl
         \<and> blob_text dl =
             array_join [LF]
               (spec_header_row
                # map (\<lambda>i. array_join '','' (map spec_csv_field (raw_values i)))
                    (filteredInsights toLowerCase d))"
    if "filteredInsights toLowerCase d \<noteq> []"
    using exportToCSV_nonempty [OF that, of now_iso] by simp
  have 2: "csvFields (map fst (csvRow i)) (csvRow i) ! 4
            = [DQ] @ ''Hello, '' @ [DQ, DQ] @ ''World'' @ [DQ, DQ] @ '' Line2'' @ [DQ]
          \<and> csvFields (map fst (csvRow i)) (csvRow i) ! 5 = ''x; y''"
    if h: "content i = ''Hello, '' @ [DQ] @ ''World'' @ [DQ, LF] @ ''Line2''
        \<and> templateKeys i = Some [''x'', ''y'']"
  proof -
    have v: "raw_values i ! 4 = ''Hello, '' @ [DQ] @ ''World'' @ [DQ] @ '' Line2''"
      "raw_values i ! 5 = ''x; y''"
      using h by (simp_all add: raw_values_def csvRow_def DQ_def LF_def CR_def)
    have l: "4 < length (raw_values i)" "5 < length (raw_values i)"
      by (simp_all add: raw_values_def csvRow_def)
    have q: "spec_csv_field (''Hello, '' @ [DQ] @ ''World'' @ [DQ] @ '' Line2'')
        = [DQ] @ ''Hello, '' @ [DQ, DQ] @ ''World'' @ [DQ, DQ] @ '' Line2'' @ [DQ]"
      "spec_csv_field ''x; y'' = ''x; y''"
      by (simp_all add: spec_csv_field_def spec_needs_quotes_def DQ_def LF_def)
    show ?thesis
      using v l q by (simp add: csvRow_keys csvFields_row)
  qed
  from 1 2 show ?thesis by blast
qed

theorem exportToCSV_quoting_witness:
  "filteredInsights ascii_toLowerCase ex_export = [ex_insight_H]
   \<and> content ex_insight_H = ''Hello, '' @ [DQ] @ ''World'' @ [DQ, LF] @ ''Line2''
   \<and> templateKeys ex_insight_H = Some [''x'', ''y'']
   \<and> (\<exists>dl. exportToCSV ascii_toLowerCase ''2026-11-04T09:30:00.000Z'' ex_export = Inr dl
        \<and> blob_text dl =
            ''ID,Status,Priority,Type,Content,Dynamic Variables,CTA Text,CTA URL,Required Context,Requires Primary User,Requires Profile Complete,Has CTA''
            @ [LF] @ ''H,draft,12,Dynamic,'' @ [DQ] @ ''Hello, '' @ [DQ, DQ] @ ''World''
            @ [DQ, DQ] @ '' Line2'' @ [DQ] @ '',x; y,,,,No,Yes,No'')
   \<and> csvFields (map fst (csvRow ex_insight_H)) (csvRow ex_insight_H) ! 5 = ''x; y''"
proof -
  have f: "filteredInsights ascii_toLowerCase ex_export = [ex_insight_H]"
    unfolding filteredInsights_def matchesSearch_def matchesStatus_def matchesType_def
      ex_export_def ex_insight_A_def ex_insight_H_def hello_content_def DQ_def LF_def
    by code_simp
  have c: "content ex_insight_H = ''Hello, '' @ [DQ] @ ''World'' @ [DQ, LF] @ ''Line2''"
    "templateKeys ex_insight_H = Some [''x'', ''y'']"
    by (simp_all add: ex_insight_H_def hello_content_def)
  have n: "nat_to_string 12 = ''12''"
    by code_simp
  have r: "map spec_csv_field (raw_values ex_insight_H) =
      [''H'', ''draft'', ''12'', ''Dynamic'',
       [DQ] @ ''Hello, '' @ [DQ, DQ] @ ''World'' @ [DQ, DQ] @ '' Line2'' @ [DQ],
       ''x; y'', [], [], [], ''No'', ''Yes'', ''No'']"
    by (simp add: raw_values_def csvRow_def ex_insight_H_def hello_content_def
        spec_csv_field_def spec_needs_quotes_def DQ_def LF_def CR_def n)
  from exportToCSV_quoting
    [where toLowerCase = ascii_toLowerCase and d = ex_export and i = ex_insight_H and now_iso = "''2026-11-04T09:30:00.000Z''"]
    f c r
  show ?thesis by (simp add: spec_header_row_def)
qed

lemma raw_values_spec_row: "raw_values i = spec_row i"
proof -
  have "raw_values i = map js_to_string (map snd (csvRow i))"
    by (simp add: raw_values_def comp_def)
  then show ?thesis
    by (simp only: csvRow_values) (simp add: spec_row_def)
qed

text \<open>
  Claim C6. In the CSV text that \<^verbatim>\<open>exportToCSV\<close> produces, the first line names the
  columns ID, Status, Priority, Type, Content, Dynamic Variables, CTA Text, CTA URL,
  Required Context, Requires Primary User, Requires Profile Complete, Has CTA, and the
  line of every filtered record holds its twelve values in this order: the id, the
  status, the priority, \<open>Dynamic\<close> for a dynamic record and \<open>Static\<close> otherwise, the
  content with every newline turned into one space and every carriage return removed,
  the template keys joined with \<open>; \<close>, the text and the address of the call to action
  (both empty when there is none), the required context joined with \<open>; \<close>, and \<open>Yes\<close> or
  \<open>No\<close> for each of the three flags. An absent call to action, absent template keys and
  an absent required context count as empty; the export of a set that is not empty
  returns this file and raises nothing. The row object of a record has these keys and
  values, and its fields follow them whatever row supplied the headers.
\<close>

theorem exportToCSV_columns:
  "map fst (csvRow i) =
     [''ID'', ''Status'', ''Priority'', ''Type'', ''Content'', ''Dynamic Variables'',
      ''CTA Text'', ''CTA URL'', ''Required Context'', ''Requires Primary User'',
      ''Requires Profile Complete'', ''Has CTA'']
   \<and> map snd (csvRow i) =
     [JStr (insight_id i), JStr (status i), JNum (priority i),
      JStr (if isDynamic i then ''Dynamic'' else ''Static''),
      JStr (spec_strip_newlines (content i)),
      JStr (spec_joined ''; '' (or_empty (templateKeys i))),
      JStr (case cta i of None \<Rightarrow> [] | Some c \<Rightarrow> cta_text c),
      JStr (case cta i of None \<Rightarrow> [] | Some c \<Rightarrow> cta_url c),
      JStr (spec_joined ''; '' (or_empty (requiredContext i))),
      JStr (spec_yes_no (requiresPrimaryUser i)),
      JStr (spec_yes_no (requiresProfileComplete i)),
      JStr (spec_yes_no (hasCta i))]
   \<and> csvFields (map fst (csvRow j)) (csvRow i)
       = map (\<lambda>v. spec_csv_field (js_to_string v)) (map snd (csvRow i))
   \<and> (filteredInsights toLowerCase d \<noteq> [] \<longrightarrow>
        exportToCSV toLowerCase now_iso d =
          Inr \<lparr> blob_text =
                  array_join [LF]
                    (array_join '',''
                       [''ID'', ''Status'', ''Priority'', ''Type'', ''Content'',
                        ''Dynamic Variables'', ''CTA Text'', ''CTA URL'', ''Required Context'',
                        ''Requires Primary User'', ''Requires Profile Complete'', ''Has CTA'']
                     # map (\<lambda>r. array_join '','' (map spec_csv_field (spec_row r)))
                         (filteredInsights toLowerCase d)),
                blob_type = ''text/csv;charset=utf-8;'',
                download_name =
                  ''smart_facts_export_''
                  @ takeWhile (\<lambda>c. c \<noteq> CHR ''T'') now_iso @ ''.csv'' \<rparr>)"
proof -
  have 1: "map fst (csvRow i) =
     [''ID'', ''Status'', ''Priority'', ''Type'', ''Content'', ''Dynamic Variables'',
      ''CTA Text'', ''CTA URL'', ''Required Context'', ''Requires Primary User'',
      ''Requires Profile Complete'', ''Has CTA'']"
    by (simp add: csvRow_keys spec_columns_def)
  have 3: "csvFields (map fst (csvRow j)) (csvRow i)
       = map (\<lambda>v. spec_csv_field (js_to_string v)) (map snd (csvRow i))"
    by (simp add: csvRow_keys csvFields_row raw_values_def comp_def)
  have h: "array_join '',''
       [''ID'', ''Status'', ''Priority'', ''Type'', ''Content'',
        ''Dynamic Variables'', ''CTA Text'', ''CTA URL'', ''Required Context'',
        ''Requires Primary User'', ''Requires Profile Complete'', ''Has CTA'']
      = spec_header_row"
    using header_row by (simp only: spec_columns_def)
  have 4: "exportToCSV toLowerCase now_iso d =
          Inr \<lparr> blob_text =
                  array_join [LF]
                    (array_join '',''
                       [''ID'', ''Status'', ''Priority'', ''Type'', ''Content'',
                        ''Dynamic Variables'', ''CTA Text'', ''CTA URL'', ''Required Context'',
                        ''Requires Primary User'', ''Requires Profile Complete'', ''Has CTA'']
                     # map (\<lambda>r. array_join '','' (map spec_csv_field (spec_row r)))
                         (filteredInsights toLowerCase d)),
                blob_type = ''text/csv;charset=utf-8;'',
                download_name =
                  ''smart_facts_export_''
                  @ takeWhile (\<lambda>c. c \<noteq> CHR ''T'') now_iso @ ''.csv'' \<rparr>"
    if "filteredInsights toLowerCase d \<noteq> []"
    unfolding h using exportToCSV_nonempty [OF that, of now_iso]
    by (simp only: raw_values_spec_row)
  from 1 csvRow_values [of i] 3 4 show ?thesis by blast
qed

theorem exportToCSV_columns_witness:
  "filteredInsights ascii_toLowerCase ex_dashboard = [ex_insight_A, ex_insight_B]
   \<and> cta ex_insight_A = None \<and> templateKeys ex_insight_A = None
   \<and> requiredContext ex_insight_A = None
   \<and> map snd (csvRow ex_insight_A) =
       [JStr ''A'', JStr ''live'', JNum 2, JStr ''Static'', JStr ''Alpha rates'', JStr [],
        JStr [], JStr [], JStr [], JStr ''No'', JStr ''No'', JStr ''No'']
   \<and> exportToCSV ascii_toLowerCase ''2026-11-04T09:30:00.000Z'' ex_dashboard =
       Inr \<lparr> blob_text =
               ''ID,Status,Priority,Type,Content,Dynamic Variables,CTA Text,CTA URL,Required Context,Requires Primary User,Requires Profile Complete,Has CTA''
               @ [LF] @ ''A,live,2,Static,Alpha rates,,,,,No,No,No''
               @ [LF] @ ''B,retired,1,Dynamic,Hello {name},name,Go,'' @ [DQ]
               @ ''https://example.com/a,b'' @ [DQ] @ '',SYSTEM; HOME,Yes,No,Yes'',
             blob_type = ''text/csv;charset=utf-8;'',
             download_name = ''smart_facts_export_2026-11-04.csv'' \<rparr>"
proof -
  have f: "filteredInsights ascii_toLowerCase ex_dashboard = [ex_insight_A, ex_insight_B]"
    by (simp add: filteredInsights_def matchesSearch_def matchesStatus_def matchesType_def
        ex_dashboard_def)
  have v: "spec_strip_newlines ''Alpha rates'' = ''Alpha rates''"
    by (simp add: spec_strip_newlines_def LF_def CR_def)
  have n: "nat_to_string 2 = ''2''" "nat_to_string (Suc 0) = ''1''"
    by code_simp+
  have a: "map spec_csv_field (spec_row ex_insight_A) =
      [''A'', ''live'', ''2'', ''Static'', ''Alpha rates'', [], [], [], [], ''No'', ''No'', ''No'']"
    by (simp add: spec_row_def ex_insight_A_def spec_csv_field_def spec_needs_quotes_def
        spec_strip_newlines_def spec_joined_def or_empty_def spec_yes_no_def
        DQ_def LF_def CR_def n)
  have b: "map spec_csv_field (spec_row ex_insight_B) =
      [''B'', ''retired'', ''1'', ''Dynamic'', ''Hello {name}'', ''name'', ''Go'',
       [DQ] @ ''https://example.com/a,b'' @ [DQ], ''SYSTEM; HOME'', ''Yes'', ''No'', ''Yes'']"
    by (simp add: spec_row_def ex_insight_B_def spec_csv_field_def spec_needs_quotes_def
        spec_strip_newlines_def spec_joined_def or_empty_def spec_yes_no_def
        DQ_def LF_def CR_def n)
  have c: "map snd (csvRow ex_insight_A) =
       [JStr ''A'', JStr ''live'', JNum 2, JStr ''Static'', JStr ''Alpha rates'', JStr [],
        JStr [], JStr [], JStr [], JStr ''No'', JStr ''No'', JStr ''No'']"
    using exportToCSV_columns [where i = ex_insight_A, THEN conjunct2, THEN conjunct1] v
    by (simp add: ex_insight_A_def or_empty_def spec_joined_def spec_yes_no_def)
  have e: "exportToCSV ascii_toLowerCase ''2026-11-04T09:30:00.000Z'' ex_dashboard =
       Inr \<lparr> blob_text =
               ''ID,Status,Priority,Type,Content,Dynamic Variables,CTA Text,CTA URL,Required Context,Requires Primary User,Requires Profile Complete,Has CTA''
               @ [LF] @ ''A,live,2,Static,Alpha rates,,,,,No,No,No''
               @ [LF] @ ''B,retired,1,Dynamic,Hello {name},name,Go,'' @ [DQ]
               @ ''https://example.com/a,b'' @ [DQ] @ '',SYSTEM; HOME,Yes,No,Yes'',
             blob_type = ''text/csv;charset=utf-8;'',
             download_name = ''smart_facts_export_2026-11-04.csv'' \<rparr>"
    using exportToCSV_columns
      [where toLowerCase = ascii_toLowerCase and d = ex_dashboard
         and now_iso = "''2026-11-04T09:30:00.000Z''",
       THEN conjunct2, THEN conjunct2, THEN conjunct2]
    by (simp add: f a b)
  from f c e show ?thesis by (simp add: ex_insight_A_def)
qed

text \<open>
  Claim C2. Exporting while the filtered set is empty: the specification describes a
  defined no-op that raises nothing. The script reads the keys of the first row of an
  empty \<^verbatim>\<open>csvData\<close>, and \<^verbatim>\<open>Object.keys(undefined)\<close> throws a TypeError. On the built
  dashboard with the status selector on \<^verbatim>\<open>retired\<close> nothing is shown and the export
  ends in that TypeError; no file is made.
\<close>

theorem exportToCSV_empty_set_throws:
  "filteredInsights toLowerCase ex_none_shown = []
   \<and> exportToCSV toLowerCase ''2026-11-04T09:30:00.000Z'' ex_none_shown = Inl TypeError"
proof -
  have f: "filteredInsights toLowerCase ex_none_shown = []"
    by (simp add: filteredInsights_def matchesSearch_def matchesStatus_def matchesType_def
        ex_none_shown_def get_hardcoded_insights_def)
  then show ?thesis by (simp add: exportToCSV_empty)
qed

text \<open>
  Claim C9. Two dashboards that differ in the view mode only have the same
  \<^verbatim>\<open>filteredInsights\<close>, the same \<^verbatim>\<open>stats\<close> and the same result of \<^verbatim>\<open>exportToCSV\<close>.
\<close>

theorem viewMode_irrelevant:
  "filteredInsights toLowerCase (d\<lparr>viewMode := v\<rparr>) = filteredInsights toLowerCase (d\<lparr>viewMode := w\<rparr>)
   \<and> stats (d\<lparr>viewMode := v\<rparr>) = stats (d\<lparr>viewMode := w\<rparr>)
   \<and> exportToCSV toLowerCase now_iso (d\<lparr>viewMode := v\<rparr>) = exportToCSV toLowerCase now_iso (d\<lparr>viewMode := w\<rparr>)"
proof -
  have f: "filteredInsights toLowerCase (d\<lparr>viewMode := v\<rparr>) = filteredInsights toLowerCase (d\<lparr>viewMode := w\<rparr>)"
    by (simp add: filteredInsights_def matchesSearch_def matchesStatus_def matchesType_def)
  have s: "stats (d\<lparr>viewMode := v\<rparr>) = stats (d\<lparr>viewMode := w\<rparr>)"
    by (simp add: stats_def)
  have e: "exportToCSV toLowerCase now_iso (d\<lparr>viewMode := v\<rparr>) = exportToCSV toLowerCase now_iso (d\<lparr>viewMode := w\<rparr>)"
    by (simp add: exportToCSV_def f)
  from f s e show ?thesis by simp
qed

theorem viewMode_irrelevant_witness:
  "filteredInsights ascii_toLowerCase (ex_search\<lparr>viewMode := ''grid''\<rparr>) = [ex_insight_A]
   \<and> stats (ex_search\<lparr>viewMode := ''grid''\<rparr>) = stats ex_search
   \<and> exportToCSV ascii_toLowerCase ''2026-11-04T09:30:00.000Z'' (ex_search\<lparr>viewMode := ''grid''\<rparr>)
       = exportToCSV ascii_toLowerCase ''2026-11-04T09:30:00.000Z'' ex_search"
proof -
  have f: "filteredInsights ascii_toLowerCase ex_search = [ex_insight_A]"
    unfolding filteredInsights_def matchesSearch_def matchesStatus_def matchesType_def
      ex_search_def ex_insight_A_def ex_insight_B_def
    by code_simp
  have l: "ex_search\<lparr>viewMode := ''list''\<rparr> = ex_search"
    by (simp add: ex_search_def)
  from viewMode_irrelevant
    [where toLowerCase = ascii_toLowerCase and d = ex_search and v = "''grid''" and w = "''list''"
       and now_iso = "''2026-11-04T09:30:00.000Z''"]
    f l
  show ?thesis by simp
qed

section \<open>Properties of the resolver\<close>

text \<open>The resolver returns a sequence in every environment: nothing it raises escapes.\<close>

lemma resolver_returns: "\<exists>xs. extract_smart_facts_from_codebase env = Inr xs"
  by (simp add: extract_smart_facts_from_codebase_def split: option.splits sum.splits)

text \<open>Without the variable and with none of the three fixed locations, the fallback.\<close>

lemma resolver_no_location:
  assumes "CODEBASE_PATH env = None" and "\<not> path_exists env ''../hometap''"
    and "\<not> path_exists env ''../../hometap''" and "\<not> path_exists env ''/tmp/codebase''"
  shows "extract_smart_facts_from_codebase env = Inr get_hardcoded_insights"
  using assms by (simp add: extract_smart_facts_from_codebase_def possible_paths_def)

text \<open>An exception of the extraction is caught, and the fallback returned.\<close>

lemma resolver_exception:
  assumes "first_existing env (possible_paths env) = Some p"
    and "extract_from_files env p = Inl e"
  shows "extract_smart_facts_from_codebase env = Inr get_hardcoded_insights"
  using assms by (simp add: extract_smart_facts_from_codebase_def)

text \<open>With both files in place the extraction gives the fallback, read or not.\<close>

lemma resolver_both_files:
  assumes "first_existing env (possible_paths env) = Some p"
    and "path_exists env
           (os_path_join p ''eng_portals/portals/portals/apps/smart_facts/definitions.py'')"
    and "path_exists env
           (os_path_join p
              ''eng_portals/portals/portals/apps/smart_facts/display_templates.py'')"
  shows "extract_smart_facts_from_codebase env = Inr get_hardcoded_insights"
  using assms
  by (simp add: extract_smart_facts_from_codebase_def extract_from_files_def Let_def
      split: sum.splits)

text \<open>
  Claim C7. A location is found and the extraction from it fails: the specification
  wants the fallback sequence in every such case, a missing definitions or templates
  file included. \<^verbatim>\<open>extract_from_files\<close> returns its initial empty list when one of the
  two files is missing, without raising, so the resolver returns the empty list. In the
  environment whose only candidate is the directory \<^verbatim>\<open>/tmp/codebase\<close>, holding neither
  file, the location is found, the result is empty, and the fallback is not.
\<close>

theorem resolver_missing_files_empty:
  "first_existing env_tmp_only (possible_paths env_tmp_only) = Some ''/tmp/codebase''
   \<and> extract_from_files env_tmp_only ''/tmp/codebase'' = Inr []
   \<and> extract_smart_facts_from_codebase env_tmp_only = Inr []
   \<and> get_hardcoded_insights \<noteq> []"
proof -
  have p: "first_existing env_tmp_only (possible_paths env_tmp_only) = Some ''/tmp/codebase''"
    by (simp add: possible_paths_def env_tmp_only_def)
  have x: "extract_from_files env_tmp_only ''/tmp/codebase'' = Inr []"
    by (simp add: extract_from_files_def os_path_join_def env_tmp_only_def)
  have r: "extract_smart_facts_from_codebase env_tmp_only = Inr []"
    by (simp add: extract_smart_facts_from_codebase_def p x)
  have h: "get_hardcoded_insights \<noteq> []"
    by (simp add: get_hardcoded_insights_def)
  from p x r h show ?thesis by simp
qed

text \<open>
  Claim C8. The resolver raises in no environment and, by the specification, always
  returns at least the fallback sequence. In the environment whose variable names an
  existing directory that holds the definitions file and no templates file, the
  resolver returns the empty list, of which the fallback sequence is no subsequence.
\<close>

theorem resolver_below_fallback:
  "extract_smart_facts_from_codebase env_no_templates = Inr []
   \<and> \<not> subseq get_hardcoded_insights []"
proof -
  have p: "first_existing env_no_templates (possible_paths env_no_templates)
      = Some ''/srv/hometap''"
    by (simp add: possible_paths_def env_no_templates_def)
  have x: "extract_from_files env_no_templates ''/srv/hometap'' = Inr []"
    by (simp add: extract_from_files_def os_path_join_def env_no_templates_def)
  have r: "extract_smart_facts_from_codebase env_no_templates = Inr []"
    by (simp add: extract_smart_facts_from_codebase_def p x)
  have h: "\<not> subseq get_hardcoded_insights []"
    by (simp add: get_hardcoded_insights_def)
  from r h show ?thesis by simp
qed

text \<open>The part of the two claims that the script keeps, at the environment with no location.\<close>

lemma resolver_no_location_example:
  "extract_smart_facts_from_codebase env_nothing = Inr get_hardcoded_insights"
  using resolver_no_location [of env_nothing] by (simp add: env_nothing_def)

end
